theory Spec2Isabelle
  imports Complex_Main "HOL-Library.AList"
begin

section \<open>Shallow embedding of create_model_file.py\<close>

text \<open>
  The script reads a panels file, clusters the panel-probability vectors, estimates the
  switch rates, computes lag correlations of the label sequence and prints a model file.
  Python floats are modelled as exact reals; the one place where the script can meet a
  not-a-number value (the correlation coefficient of a constant sequence) is modelled by
  \<open>real option\<close>, with \<open>None\<close> for nan.  Every exception the script can raise is a value
  of the type \<open>error\<close>.
\<close>

datatype error =
    HapIndicesInconsistent   \<comment> \<open>line 56-57: SystemExit after the haplotype message\<close>
  | PanelCountVaries         \<comment> \<open>line 63-64: SystemExit after "number of panels varies"\<close>
  | TroubleInMakeRho         \<comment> \<open>line 105-106: SystemExit in make_rho\<close>
  | IndexError
  | NameError
  | ValueError
  | ZeroDivisionError
  | TypeError
  | FitError                 \<comment> \<open>any exception raised by the mixture-model library\<close>

subsection \<open>The input-reading loop (lines 32-69)\<close>

text \<open>
  A body line of the panels file, already split into its fields (lines 41-42 and 61):
  location index, chromosome name, haplotype index, recombination value and the panel
  probabilities.  A line starting with \<open>#\<close> is skipped by the loop.
\<close>

record data_line =
  locindex :: int
  chrom :: string
  hapindex :: int
  thisrho :: real
  probs :: "real list"

datatype line = Comment | Data data_line

text \<open>
  The module-level variables the loop updates.  \<open>oldchrom\<close> starts as the integer -1,
  which no chromosome string equals: \<open>None\<close>.  \<open>oldhapindices\<close> is unbound before its first
  assignment at line 58: \<open>None\<close>.  The field \<open>locchroms\<close> is an auxiliary variable that is
  not in the script: it records, for every location slot the loop opens at lines 52-53,
  the chromosome of the line that opened it, and nothing reads it.
\<close>

record pstate =
  panelprobs :: "real list list list"
  rhovals :: "real list list"
  panelprobschrom :: "real list list list"
  rhovalschrom :: "real list list"
  oldlocindex :: int
  hapindices :: "int list"
  oldhapindices :: "int list option"
  oldchrom :: "string option"
  locchroms :: "string list"

definition init_pstate :: pstate where
  "init_pstate = \<lparr> panelprobs = [], rhovals = [], panelprobschrom = [], rhovalschrom = [],
     oldlocindex = - 1, hapindices = [], oldhapindices = None, oldchrom = None,
     locchroms = [] \<rparr>"

text \<open>Lines 43-49: a new chromosome flushes the per-chromosome buffers.\<close>

definition chrom_step :: "data_line \<Rightarrow> pstate \<Rightarrow> pstate" where
  "chrom_step d s =
     (if oldchrom s \<noteq> Some (chrom d) then
        (if length (panelprobschrom s) > 0
         then s\<lparr> oldchrom := Some (chrom d),
                 panelprobs := panelprobs s @ panelprobschrom s,
                 rhovals := rhovals s @ rhovalschrom s,
                 panelprobschrom := [], rhovalschrom := [] \<rparr>
         else s\<lparr> oldchrom := Some (chrom d), panelprobschrom := [], rhovalschrom := [] \<rparr>)
      else s)"

text \<open>
  Line 55: \<open>any([x!=y for x,y in zip(hapindices,oldhapindices)])\<close>.  \<open>zip\<close> stops at the
  shorter of the two lists.
\<close>

definition any_differs :: "int list \<Rightarrow> int list \<Rightarrow> bool" where
  "any_differs xs ys = list_ex (\<lambda>(x, y). x \<noteq> y) (zip xs ys)"

text \<open>Lines 50-59: a new location index opens a slot and checks the haplotype indices.\<close>

definition loc_step :: "data_line \<Rightarrow> pstate \<Rightarrow> error + pstate" where
  "loc_step d s =
     (if locindex d \<noteq> oldlocindex s then
        (let s1 = s\<lparr> oldlocindex := locindex d,
                      panelprobschrom := panelprobschrom s @ [[]],
                      rhovalschrom := rhovalschrom s @ [[]],
                      locchroms := locchroms s @ [chrom d] \<rparr>
         in if length (hapindices s1) > 0 then
              (case oldhapindices s1 of
                 None \<Rightarrow> Inl NameError
               | Some old \<Rightarrow>
                   if any_differs (hapindices s1) old then Inl HapIndicesInconsistent
                   else Inr (s1\<lparr> oldhapindices := Some (hapindices s1), hapindices := [] \<rparr>))
            else Inr (s1\<lparr> oldhapindices := Some (hapindices s1), hapindices := [] \<rparr>))
      else Inr s)"

text \<open>
  Lines 60-66: the line's values go to the last slot of the per-chromosome buffers.
  Index \<open>len(panelprobschrom)-1\<close> of an empty list is index -1 of an empty list, an
  IndexError.
\<close>

definition append_last :: "'a \<Rightarrow> 'a list list \<Rightarrow> 'a list list" where
  "append_last v xss = xss[length xss - 1 := (xss ! (length xss - 1)) @ [v]]"

definition store_step :: "nat \<Rightarrow> data_line \<Rightarrow> pstate \<Rightarrow> error + pstate" where
  "store_step npanel d s =
     (let s1 = s\<lparr> hapindices := hapindices s @ [hapindex d] \<rparr>
      in if length (probs d) \<noteq> npanel then Inl PanelCountVaries
         else if panelprobschrom s1 = [] then Inl IndexError
         else if length (rhovalschrom s1) < length (panelprobschrom s1) then Inl IndexError
         else Inr (s1\<lparr> panelprobschrom := append_last (probs d) (panelprobschrom s1),
                        rhovalschrom := (rhovalschrom s1)[length (panelprobschrom s1) - 1 :=
                            (rhovalschrom s1 ! (length (panelprobschrom s1) - 1)) @ [thisrho d]] \<rparr>))"

definition line_step :: "nat \<Rightarrow> line \<Rightarrow> pstate \<Rightarrow> error + pstate" where
  "line_step npanel l s =
     (case l of
        Comment \<Rightarrow> Inr s
      | Data d \<Rightarrow>
          (case loc_step d (chrom_step d s) of
             Inl e \<Rightarrow> Inl e
           | Inr s1 \<Rightarrow> store_step npanel d s1))"

fun read_loop :: "nat \<Rightarrow> line list \<Rightarrow> pstate \<Rightarrow> error + pstate" where
  "read_loop npanel [] s = Inr s"
| "read_loop npanel (l # ls) s =
     (case line_step npanel l s of
        Inl e \<Rightarrow> Inl e
      | Inr s1 \<Rightarrow> read_loop npanel ls s1)"

text \<open>Lines 67-68: after the loop the last chromosome's buffers are appended.\<close>

definition read_panels :: "nat \<Rightarrow> line list \<Rightarrow> error + pstate" where
  "read_panels npanel ls =
     (case read_loop npanel ls init_pstate of
        Inl e \<Rightarrow> Inl e
      | Inr s \<Rightarrow> Inr (s\<lparr> panelprobs := panelprobs s @ panelprobschrom s,
                         rhovals := rhovals s @ rhovalschrom s \<rparr>))"

subsection \<open>cluster (lines 76-96)\<close>

text \<open>
  The mixture-model library (\<open>GaussianMixture\<close>, its \<open>fit\<close> and \<open>predict\<close>) is not part
  of the script.  It is a parameter of the model: given the component count and the
  transformed vectors it returns the flat label list and the matrix \<open>means_\<close>, or raises.
\<close>

type_synonym fit = "nat \<Rightarrow> real list list \<Rightarrow> error + (nat list \<times> real list list)"

text \<open>\<open>np.sum(clustinput,0)\<close>: the column sums of a non-empty rectangular array.\<close>

definition col_sums :: "real list list \<Rightarrow> real list" where
  "col_sums rows = map (\<lambda>c. sum_list (map (\<lambda>v. v ! c) rows)) [0..<length (hd rows)]"

text \<open>\<open>np.argmax\<close>: the first index of the largest entry.\<close>

fun argmax_from :: "nat \<Rightarrow> nat \<Rightarrow> real \<Rightarrow> real list \<Rightarrow> nat" where
  "argmax_from i best bestv [] = best"
| "argmax_from i best bestv (x # xs) =
     (if x > bestv then argmax_from (Suc i) i x xs else argmax_from (Suc i) best bestv xs)"

definition argmax :: "real list \<Rightarrow> nat" where
  "argmax xs = argmax_from 1 0 (hd xs) (tl xs)"

text \<open>\<open>np.delete(a, k, 1)\<close> and \<open>np.insert(a, k, col, axis=1)\<close>, on one row.\<close>

definition delete_col :: "nat \<Rightarrow> 'a list \<Rightarrow> 'a list" where
  "delete_col k row = take k row @ drop (Suc k) row"

definition insert_col :: "nat \<Rightarrow> 'a \<Rightarrow> 'a list \<Rightarrow> 'a list" where
  "insert_col k v row = take k row @ v # drop k row"

text \<open>Line 91: \<open>[labels[i:i+nhaps] for i in range(0,len(labels),nhaps)]\<close>, for nhaps > 0.\<close>

definition reshape_labels :: "nat \<Rightarrow> 'a list \<Rightarrow> 'a list list" where
  "reshape_labels nhaps labels =
     map (\<lambda>k. take nhaps (drop (k * nhaps) labels))
       [0..<(length labels + nhaps - 1) div nhaps]"

text \<open>
  \<open>cluster\<close>.  \<open>panelprobs[0]\<close> of an empty table is an IndexError; an array that is
  empty, ragged or without columns makes numpy raise (ValueError here); a zero step of
  \<open>range\<close> is a ValueError; \<open>np.insert\<close> beyond the row's end is an IndexError.
\<close>

definition cluster :: "fit \<Rightarrow> real list list list \<Rightarrow> nat \<Rightarrow> error + (nat list list \<times> real list list)" where
  "cluster gmm pprobs nanc =
     (if pprobs = [] then Inl IndexError
      else
        (let nhaps = length (hd pprobs);
             clustinput = concat pprobs
         in if clustinput = [] \<or> \<not> list_all (\<lambda>v. length v = length (hd clustinput)) clustinput
               \<or> hd clustinput = []
            then Inl ValueError
            else
              (let sums0 = col_sums clustinput;
                   whichdrop = argmax sums0;
                   transformed = map (delete_col whichdrop) clustinput
               in (case gmm nanc transformed of
                     Inl e \<Rightarrow> Inl e
                   | Inr (labels, means) \<Rightarrow>
                       if nhaps = 0 then Inl ValueError
                       else
                         (let labelmatrix = reshape_labels nhaps labels;
                              extra_column = map (\<lambda>x. 1 - sum_list x) means
                          in if list_ex (\<lambda>x. length x < whichdrop) means then Inl IndexError
                             else Inr (labelmatrix,
                                       map2 (insert_col whichdrop) extra_column means))))))"

text \<open>
  The dropped column and the vectors handed to the library (lines 81-85), by
  themselves, for statements about the fitted means.
\<close>

definition whichdrop_of :: "real list list list \<Rightarrow> nat" where
  "whichdrop_of pprobs = argmax (col_sums (concat pprobs))"

definition transformed_input :: "real list list list \<Rightarrow> real list list" where
  "transformed_input pprobs = map (delete_col (whichdrop_of pprobs)) (concat pprobs)"

text \<open>Every entry of a matrix lies in [0, 1].\<close>

definition in_unit_interval :: "real list list \<Rightarrow> bool" where
  "in_unit_interval param = list_all (list_all (\<lambda>v. 0 \<le> v \<and> v \<le> 1)) param"

text \<open>
  The sum of the vectors \<open>x\<close> scaled by their weights \<open>w\<close>, for vectors of length \<open>d\<close>.
\<close>

fun weighted_sum :: "nat \<Rightarrow> (real \<times> real list) list \<Rightarrow> real list" where
  "weighted_sum d [] = replicate d 0"
| "weighted_sum d ((w, x) # r) = map2 (+) (map ((*) w) x) (weighted_sum d r)"

definition weighted_average :: "real list \<Rightarrow> real list list \<Rightarrow> real list" where
  "weighted_average w X = weighted_sum (length (hd X)) (zip w X)"

text \<open>
  What the mixture-model library returns as a fitted mean (its M-step): a weighted
  average of the vectors it was given, one non-negative weight per vector.  The library
  divides the weighted sum by the total weight plus a tiny positive constant, so the
  weights sum to at most 1.
\<close>

definition is_weighted_average :: "real list \<Rightarrow> real list list \<Rightarrow> bool" where
  "is_weighted_average m X =
     (\<exists>w. length w = length X \<and> (\<forall>x \<in> set w. 0 \<le> x) \<and> sum_list w \<le> 1
          \<and> m = weighted_average w X)"

text \<open>
  A stand-in for the library at concrete inputs: with one component every vector gets
  label 0 and the fitted mean is the mean of the vectors (in exact arithmetic); the
  library wants at least two vectors.
\<close>

definition one_component_fit :: fit where
  "one_component_fit nanc X =
     (if nanc \<noteq> 1 \<or> length X < 2 then Inl FitError
      else Inr (replicate (length X) 0, [map (\<lambda>s. s / real (length X)) (col_sums X)]))"

subsection \<open>make_rho (lines 100-112)\<close>

text \<open>Running a list of computations in order, stopping at the first exception.\<close>

fun collect :: "(error + 'a) list \<Rightarrow> error + 'a list" where
  "collect [] = Inr []"
| "collect (Inl e # rs) = Inl e"
| "collect (Inr x # rs) = (case collect rs of Inl e \<Rightarrow> Inl e | Inr xs \<Rightarrow> Inr (x # xs))"

text \<open>Lines 109-110: the values at the indices labelled i, and their mean.\<close>

definition rhoi_vec :: "nat list \<Rightarrow> real list \<Rightarrow> nat \<Rightarrow> real list" where
  "rhoi_vec labels rho_vec i =
     map (\<lambda>index. rho_vec ! index) (filter (\<lambda>index. labels ! index = i) [0..<length labels])"

definition rhoi :: "nat list \<Rightarrow> real list \<Rightarrow> nat \<Rightarrow> error + real" where
  "rhoi labels rho_vec i =
     (if length (rhoi_vec labels rho_vec i) = 0 then Inl ZeroDivisionError
      else Inr (sum_list (rhoi_vec labels rho_vec i) / real (length (rhoi_vec labels rho_vec i))))"

definition make_rho :: "nat list list \<Rightarrow> real list list \<Rightarrow> nat \<Rightarrow> error + real list" where
  "make_rho label_matrix rho_matrix nanc =
     (let labels = concat label_matrix;
          rho_vec = concat rho_matrix
      in if length labels \<noteq> length rho_vec then Inl TroubleInMakeRho
         else collect (map (rhoi labels rho_vec) [0..<nanc]))"

text \<open>
  The spec's words for the switch rate of component i: the arithmetic mean of the
  recombination values of the pairs labelled i, the two tables being flattened in the
  same order.
\<close>

definition spec_rho_values :: "nat list list \<Rightarrow> real list list \<Rightarrow> nat \<Rightarrow> real list" where
  "spec_rho_values label_matrix rho_matrix i =
     map snd (filter (\<lambda>(l, r). l = i) (zip (concat label_matrix) (concat rho_matrix)))"

definition spec_mean :: "real list \<Rightarrow> real" where
  "spec_mean xs = sum_list xs / real (length xs)"

subsection \<open>autoc (lines 116-133)\<close>

text \<open>\<open>xs[:-lag]\<close>: for lag = 0 the slice \<open>xs[:0]\<close> is empty.\<close>

definition slice_to_neg :: "nat \<Rightarrow> 'a list \<Rightarrow> 'a list" where
  "slice_to_neg lag xs = (if lag = 0 then [] else take (length xs - lag) xs)"

text \<open>
  Lines 124-128: for every haplotype j in turn, the indicators \<open>1*(x[j]==i)\<close> of the
  given rows are appended.  \<open>x[j]\<close> on a row shorter than nhaps is an IndexError.
\<close>

definition indicators :: "nat list list \<Rightarrow> nat \<Rightarrow> nat \<Rightarrow> real list" where
  "indicators rows nhaps i =
     concat (map (\<lambda>j. map (\<lambda>x. if x ! j = i then 1 else 0) rows) [0..<nhaps])"

definition rows_cover :: "nat \<Rightarrow> nat list list \<Rightarrow> bool" where
  "rows_cover nhaps rows = list_all (\<lambda>x. nhaps \<le> length x) rows"

text \<open>
  \<open>np.corrcoef(x,y)[0][1]\<close> in exact arithmetic: the covariance matrix with divisor
  n - 1, divided by the two standard deviations and clipped to [-1, 1].  Vectors of
  different lengths cannot be stacked (ValueError).  With fewer than two samples or a
  zero variance numpy divides zero by zero and returns nan (\<open>None\<close>).
\<close>

definition mean :: "real list \<Rightarrow> real" where
  "mean xs = sum_list xs / real (length xs)"

definition cov :: "real list \<Rightarrow> real list \<Rightarrow> real" where
  "cov xs ys =
     sum_list (map2 (\<lambda>x y. (x - mean xs) * (y - mean ys)) xs ys) / (real (length xs) - 1)"

definition clip :: "real \<Rightarrow> real" where
  "clip c = min 1 (max (- 1) c)"

definition corrcoef :: "real list \<Rightarrow> real list \<Rightarrow> error + real option" where
  "corrcoef xs ys =
     (if length xs \<noteq> length ys then Inl ValueError
      else if length xs < 2 \<or> cov xs xs = 0 \<or> cov ys ys = 0 then Inr None
      else Inr (Some (clip (cov xs ys / sqrt (cov xs xs) / sqrt (cov ys ys)))))"

text \<open>
  \<open>round(ac,3)\<close> on a numpy float: scale by 1000, round half to even, scale back;
  nan stays nan.
\<close>

definition rint :: "real \<Rightarrow> int" where
  "rint x =
     (let f = \<lfloor>x\<rfloor>; d = x - of_int f
      in if d < 1 / 2 then f else if d > 1 / 2 then f + 1 else if even f then f else f + 1)"

definition round3 :: "real \<Rightarrow> real" where
  "round3 x = of_int (rint (x * 1000)) / 1000"

type_synonym acs_dict = "((nat \<times> nat) \<times> real option) list"

text \<open>
  The function returns either the float 0.0 (line 120) or the tuple
  \<open>(acs, maxcrosscor, minautocor)\<close> (line 133).
\<close>

datatype autoc_result = Degenerate real | Correlations acs_dict real real

text \<open>The pairs (i1, i2) in the order of the two loops at lines 122-123.\<close>

definition index_pairs :: "nat \<Rightarrow> (nat \<times> nat) list" where
  "index_pairs nanc = concat (map (\<lambda>i1. map (\<lambda>i2. (i1, i2)) [0..<i1 + 1]) [0..<nanc])"

text \<open>
  Lines 124-132 for one pair.  The correlation function is a parameter, so that what
  does not depend on it can be stated for every such function.  A comparison with nan
  is false.
\<close>

definition pair_step ::
  "(real list \<Rightarrow> real list \<Rightarrow> error + real option) \<Rightarrow> nat list list \<Rightarrow> nat \<Rightarrow> nat
     \<Rightarrow> nat \<times> nat \<Rightarrow> acs_dict \<times> real \<times> real \<Rightarrow> error + (acs_dict \<times> real \<times> real)" where
  "pair_step cc labelmatrix lag nhaps p st =
     (case (p, st) of ((i1, i2), (acs, maxcrosscor, minautocor)) \<Rightarrow>
        if \<not> (rows_cover nhaps (slice_to_neg lag labelmatrix)
               \<and> rows_cover nhaps (drop lag labelmatrix))
        then Inl IndexError
        else
          (case cc (indicators (slice_to_neg lag labelmatrix) nhaps i1)
                   (indicators (drop lag labelmatrix) nhaps i2) of
             Inl e \<Rightarrow> Inl e
           | Inr ac \<Rightarrow>
               Inr (AList.update (i2, i1) (map_option round3 ac) acs,
                    (case ac of
                       None \<Rightarrow> maxcrosscor
                     | Some a \<Rightarrow> if i1 \<noteq> i2 \<and> a > maxcrosscor then a else maxcrosscor),
                    (case ac of
                       None \<Rightarrow> minautocor
                     | Some a \<Rightarrow> if i1 = i2 \<and> a < minautocor then a else minautocor))))"

fun autoc_loop ::
  "(real list \<Rightarrow> real list \<Rightarrow> error + real option) \<Rightarrow> nat list list \<Rightarrow> nat \<Rightarrow> nat
     \<Rightarrow> (nat \<times> nat) list \<Rightarrow> acs_dict \<times> real \<times> real \<Rightarrow> error + (acs_dict \<times> real \<times> real)" where
  "autoc_loop cc labelmatrix lag nhaps [] st = Inr st"
| "autoc_loop cc labelmatrix lag nhaps (p # ps) st =
     (case pair_step cc labelmatrix lag nhaps p st of
        Inl e \<Rightarrow> Inl e
      | Inr st1 \<Rightarrow> autoc_loop cc labelmatrix lag nhaps ps st1)"

text \<open>After the guard of line 120 the matrix has a first row.\<close>

definition autoc_with ::
  "(real list \<Rightarrow> real list \<Rightarrow> error + real option) \<Rightarrow> nat list list \<Rightarrow> nat \<Rightarrow> nat
     \<Rightarrow> error + autoc_result" where
  "autoc_with cc labelmatrix nanc lag =
     (if length labelmatrix < lag + 2 then Inr (Degenerate 0)
      else
        (case autoc_loop cc labelmatrix lag (length (hd labelmatrix)) (index_pairs nanc)
                ([], - 1, 1) of
           Inl e \<Rightarrow> Inl e
         | Inr (acs, maxcrosscor, minautocor) \<Rightarrow> Inr (Correlations acs maxcrosscor minautocor)))"

definition autoc :: "nat list list \<Rightarrow> nat \<Rightarrow> nat \<Rightarrow> error + autoc_result" where
  "autoc = autoc_with corrcoef"

text \<open>
  The unrounded coefficient \<open>ac\<close> of line 129 for the pair (i1, i2); nan is \<open>None\<close>.
\<close>

definition coefficient ::
  "(real list \<Rightarrow> real list \<Rightarrow> error + real option) \<Rightarrow> nat list list \<Rightarrow> nat \<Rightarrow> nat
     \<Rightarrow> nat \<Rightarrow> nat \<Rightarrow> real option" where
  "coefficient cc lm lag nhaps i1 i2 =
     (case cc (indicators (slice_to_neg lag lm) nhaps i1) (indicators (drop lag lm) nhaps i2) of
        Inl e \<Rightarrow> None
      | Inr ac \<Rightarrow> ac)"

text \<open>
  The indicator of ancestry i at location t + off, for every t below N - lag in turn and
  haplotype by haplotype: with off = 0 the sequence A and with off = lag the sequence B
  of the correlation contract.
\<close>

definition lagged_indicators :: "nat list list \<Rightarrow> nat \<Rightarrow> nat \<Rightarrow> nat \<Rightarrow> nat \<Rightarrow> real list" where
  "lagged_indicators lm lag nhaps off i =
     concat (map (\<lambda>h. map (\<lambda>t. if lm ! (t + off) ! h = i then 1 else 0) [0..<length lm - lag])
               [0..<nhaps])"

text \<open>
  A correlation function for inspecting the paired samples: the number of samples in
  which both indicators are 1.
\<close>

definition count_both :: "real list \<Rightarrow> real list \<Rightarrow> error + real option" where
  "count_both xs ys = Inr (Some (sum_list (map2 (*) xs ys)))"

text \<open>
  The location indices that lines 127-128 put side by side: the two slices of the
  script, taken of the list of location positions instead of the list of label rows.
\<close>

definition paired_locations :: "nat \<Rightarrow> nat \<Rightarrow> (nat \<times> nat) list" where
  "paired_locations n lag = zip (slice_to_neg lag [0..<n]) (drop lag [0..<n])"

text \<open>
  Some pair of locations that \<open>autoc\<close> puts side by side lies on two chromosomes:
  the slots of the table are numbered in the order the reading loop opened them.
\<close>

definition crosses_chromosomes :: "pstate \<Rightarrow> nat \<Rightarrow> bool" where
  "crosses_chromosomes s lag =
     list_ex (\<lambda>(t, u). locchroms s ! t \<noteq> locchroms s ! u)
       (paired_locations (length (panelprobs s)) lag)"

subsection \<open>The emission-error value (lines 178-181)\<close>

definition mylambda :: "int \<Rightarrow> real" where
  "mylambda nrefhaps = 1 / (ln (real_of_int nrefhaps) + 0.5)"

definition theta :: "int \<Rightarrow> real" where
  "theta nrefhaps = mylambda nrefhaps / (2 * mylambda nrefhaps + 2 * real_of_int nrefhaps)"

text \<open>
  The rows printed at lines 180-181.  For a count below 1 numpy's logarithm is
  minus infinity or nan and the printed value is nan (\<open>None\<close>).
\<close>

definition theta_rows :: "nat \<Rightarrow> nat \<Rightarrow> int \<Rightarrow> real option list list" where
  "theta_rows nanc npanel nrefhaps =
     replicate nanc (replicate npanel (if nrefhaps < 1 then None else Some (theta nrefhaps)))"

subsection \<open>The script as a whole (lines 136-186)\<close>

text \<open>The values written to the model file, in the order of the print statements.\<close>

record model_file =
  acs_comment :: acs_dict
  maxcrosscor_comment :: real
  minautocor_comment :: real
  ancestries :: "nat list"
  panels :: "string list"
  generations :: nat
  mu :: "real list"
  p_rows :: "real list list"
  theta_matrix :: "real option list list"
  rho :: "real list"

text \<open>
  Line 143: \<open>acs,maxcrosscor,minautocor = autoc(...)\<close>.  Unpacking a float is a
  TypeError.
\<close>

definition unpack3 :: "autoc_result \<Rightarrow> error + (acs_dict \<times> real \<times> real)" where
  "unpack3 r = (case r of Degenerate v \<Rightarrow> Inl TypeError | Correlations a b c \<Rightarrow> Inr (a, b, c))"

text \<open>
  The script from the reading loop to the last print, with lag = 1 and T = 10.
  \<open>1.0/nanc\<close> at line 166 is a ZeroDivisionError for nanc = 0.
\<close>

definition main :: "fit \<Rightarrow> nat \<Rightarrow> int \<Rightarrow> string list \<Rightarrow> line list \<Rightarrow> error + model_file" where
  "main gmm nanc nrefhaps refpops ls =
     (case read_panels (length refpops) ls of
        Inl e \<Rightarrow> Inl e
      | Inr s \<Rightarrow>
     (case cluster gmm (panelprobs s) nanc of
        Inl e \<Rightarrow> Inl e
      | Inr (thislabelmatrix, thisparams) \<Rightarrow>
     (case make_rho thislabelmatrix (rhovals s) nanc of
        Inl e \<Rightarrow> Inl e
      | Inr thisrho1 \<Rightarrow>
     (case autoc thislabelmatrix nanc 1 of
        Inl e \<Rightarrow> Inl e
      | Inr r \<Rightarrow>
     (case unpack3 r of
        Inl e \<Rightarrow> Inl e
      | Inr (acs, maxcrosscor, minautocor) \<Rightarrow>
          if nanc = 0 then Inl ZeroDivisionError
          else Inr \<lparr> acs_comment = acs, maxcrosscor_comment = maxcrosscor,
                     minautocor_comment = minautocor, ancestries = [0..<nanc],
                     panels = refpops, generations = 10,
                     mu = replicate nanc (1 / real nanc), p_rows = thisparams,
                     theta_matrix = theta_rows nanc (length refpops) nrefhaps,
                     rho = thisrho1 \<rparr>)))))"

subsection \<open>Concrete inputs\<close>

text \<open>A body line from its fields, for concrete inputs.\<close>

definition mk_line :: "int \<Rightarrow> string \<Rightarrow> int \<Rightarrow> real \<Rightarrow> real list \<Rightarrow> line" where
  "mk_line l c h r ps = Data \<lparr> locindex = l, chrom = c, hapindex = h, thisrho = r, probs = ps \<rparr>"

text \<open>
  Three locations on one chromosome, two panels: haplotypes 0 and 1 at location 0,
  haplotype 0 alone at locations 1 and 2.
\<close>

definition prefix_input :: "line list" where
  "prefix_input =
     [mk_line 0 ''chr1'' 0 0.1 [0.6, 0.4], mk_line 0 ''chr1'' 1 0.1 [0.7, 0.3],
      mk_line 1 ''chr1'' 0 0.2 [0.6, 0.4],
      mk_line 2 ''chr1'' 0 0.3 [0.6, 0.4]]"

text \<open>
  One location with two haplotypes and three panels: once with vectors that sum to 1,
  once with vectors whose entries sum to 2.5 (the script does not check the sum).
\<close>

definition compositional_input :: "real list list list" where
  "compositional_input = [[[0.5, 0.3, 0.2], [0.7, 0.1, 0.2]]]"

definition overfull_input :: "real list list list" where
  "overfull_input = [[[0.9, 0.8, 0.8], [0.9, 0.8, 0.8]]]"

text \<open>Two chromosomes with two locations each, one haplotype, two panels.\<close>

definition two_chrom_input :: "line list" where
  "two_chrom_input =
     [mk_line 0 ''chr1'' 0 0.1 [0.6, 0.4], mk_line 1 ''chr1'' 0 0.2 [0.7, 0.3],
      mk_line 2 ''chr2'' 0 0.3 [0.2, 0.8], mk_line 3 ''chr2'' 0 0.4 [0.1, 0.9]]"

text \<open>Two locations on one chromosome, one haplotype, two panels.\<close>

definition short_input :: "line list" where
  "short_input =
     [mk_line 0 ''chr1'' 0 0.1 [0.6, 0.4], mk_line 1 ''chr1'' 0 0.3 [0.8, 0.2]]"

text \<open>Five locations, one haplotype, labels 0 1 1 1 0.\<close>

definition rounding_input :: "nat list list" where
  "rounding_input = [[0], [1], [1], [1], [0]]"

text \<open>
  A stand-in for the library on \<open>two_chrom_input\<close> with two components: the transformed
  values 0.6 and 0.7 of chr1 form component 1, the values 0.2 and 0.1 of chr2 component 0.
\<close>

definition two_cluster_fit :: fit where
  "two_cluster_fit nanc X =
     (if nanc = 2 \<and> X = [[0.6], [0.7], [0.2], [0.1]]
      then Inr ([1, 1, 0, 0], [[0.15], [0.65]]) else Inl FitError)"

text \<open>The label matrix of that fit: label 1 on both locations of chr1, label 0 on chr2.\<close>

definition boundary_labels :: "nat list list" where
  "boundary_labels = [[1], [1], [0], [0]]"

section \<open>Theorems\<close>

lemmas read_defs = read_panels_def line_step_def store_step_def loc_step_def chrom_step_def
  init_pstate_def append_last_def any_differs_def mk_line_def

text \<open>
  C2.  The claim: whenever two consecutive locations carry different haplotype-index
  sequences, also when one is a proper prefix of the other, the reading loop stops with
  the input-consistency error.  The loop does not: on \<open>prefix_input\<close>, where location 0
  has haplotypes [0, 1] and location 1 has [0], the comparison of line 55 sees no
  difference between [0] and [0, 1], and the loop reads all lines without an error and
  returns a table whose locations hold 2, 1 and 1 haplotypes.
\<close>

theorem read_panels_prefix_input_accepted:
  "\<not> any_differs [0] [0, 1]
   \<and> (\<exists>s. read_panels 2 prefix_input = Inr s
     \<and> map length (panelprobs s) = [2, 1, 1]
     \<and> locchroms s = [''chr1'', ''chr1'', ''chr1''])"
  by (simp add: prefix_input_def read_defs)


subsection \<open>cluster\<close>

lemma sum_list_insert_col: "sum_list (insert_col k v row) = v + sum_list (row :: real list)"
proof -
  have "sum_list (take k row) + sum_list (drop k row) = sum_list row"
    by (metis append_take_drop_id sum_list_append)
  then show ?thesis by (simp add: insert_col_def)
qed

lemma set_insert_col: "set (insert_col k v row) = insert v (set row)"
proof -
  have "set (take k row) \<union> set (drop k row) = set row"
    by (metis append_take_drop_id set_append)
  then show ?thesis by (auto simp: insert_col_def)
qed

lemma reinserted_map:
  "map2 (insert_col k) (map (\<lambda>x. 1 - sum_list x) means) means
     = map (\<lambda>m. insert_col k (1 - sum_list m) m) means"
  by (induction means) auto

lemma cluster_result:
  assumes "cluster gmm pprobs nanc = Inr (lm, param)"
  shows "\<exists>labels means. gmm nanc (transformed_input pprobs) = Inr (labels, means)
           \<and> param = map (\<lambda>m. insert_col (whichdrop_of pprobs) (1 - sum_list m) m) means"
  using assms
  unfolding cluster_def Let_def reinserted_map transformed_input_def whichdrop_of_def
  by (auto split: if_splits sum.splits prod.splits)

text \<open>
  C1.  Whenever \<open>cluster\<close> returns, the returned matrix is the matrix of fitted means
  with one column put back at the dropped position, the new entry of each row being
  1 minus the sum of that row's fitted mean, and every row of the returned matrix sums
  to 1 (exactly, in real arithmetic).
\<close>

theorem cluster_rows_sum_to_one:
  assumes "cluster gmm pprobs nanc = Inr (lm, param)"
  shows "(\<exists>labels means. gmm nanc (transformed_input pprobs) = Inr (labels, means)
            \<and> param = map (\<lambda>m. insert_col (whichdrop_of pprobs) (1 - sum_list m) m) means)
         \<and> (\<forall>row \<in> set param. sum_list row = 1)"
proof -
  from cluster_result [OF assms] obtain labels means where
    r: "gmm nanc (transformed_input pprobs) = Inr (labels, means)"
       "param = map (\<lambda>m. insert_col (whichdrop_of pprobs) (1 - sum_list m) m) means"
    by blast
  then have "\<forall>row \<in> set param. sum_list row = 1"
    by (auto simp: sum_list_insert_col)
  with r show ?thesis by blast
qed

lemma cluster_compositional_input:
  "cluster one_component_fit compositional_input 1 = Inr ([[0, 0]], [[0.6, 0.2, 0.2]])"
  by code_simp

theorem cluster_rows_sum_to_one_witness:
  "cluster one_component_fit compositional_input 1 = Inr ([[0, 0]], [[0.6, 0.2, 0.2]])
   \<and> sum_list [0.6, 0.2, 0.2 :: real] = 1"
  using cluster_rows_sum_to_one [OF cluster_compositional_input]
    cluster_compositional_input by simp

text \<open>
  C5, as stated: every entry of the returned matrix lies in [0, 1].  It fails on
  \<open>overfull_input\<close>: the two identical vectors (0.9, 0.8, 0.8) lose their first column,
  the fitted mean of one component is (0.8, 0.8), and the entry put back is
  1 - 1.6 = -0.6.
\<close>

theorem cluster_entry_negative_counterexample:
  "cluster one_component_fit overfull_input 1 = Inr ([[0, 0]], [[- 0.6, 0.8, 0.8]])
   \<and> \<not> in_unit_interval [[- 0.6, 0.8, 0.8]]"
  by code_simp

lemma sum_list_ge_member:
  "(\<forall>v \<in> set (xs :: real list). 0 \<le> v) \<Longrightarrow> x \<in> set xs \<Longrightarrow> x \<le> sum_list xs"
  by (induction xs) (auto simp: sum_list_nonneg add_increasing add_increasing2)

lemma length_weighted_sum:
  "\<forall>(w, x) \<in> set wxs. length x = d \<Longrightarrow> length (weighted_sum d wxs) = d"
  by (induction wxs) auto

lemma sum_list_map2_add:
  "length a = length b \<Longrightarrow> sum_list (map2 (+) a b) = sum_list a + sum_list (b :: real list)"
  by (induction a b rule: list_induct2) auto

lemma sum_list_weighted_sum:
  "\<forall>(w, x) \<in> set wxs. length x = d \<Longrightarrow>
     sum_list (weighted_sum d wxs) = sum_list (map (\<lambda>(w, x). w * sum_list x) wxs)"
proof (induction wxs)
  case Nil
  then show ?case by (simp add: sum_list_replicate)
next
  case (Cons p wxs)
  obtain w x where p: "p = (w, x)" by (cases p)
  from Cons.prems p have lx: "length x = d" and rest: "\<forall>(w, x) \<in> set wxs. length x = d" by auto
  have "length (map ((*) w) x) = length (weighted_sum d wxs)"
    using lx length_weighted_sum [OF rest] by simp
  then show ?case
    using Cons.IH [OF rest] by (simp add: p sum_list_map2_add sum_list_const_mult)
qed

lemma weighted_sum_nonneg:
  "\<forall>(w, x) \<in> set wxs. 0 \<le> w \<and> (\<forall>v \<in> set x. 0 \<le> v) \<Longrightarrow>
     \<forall>v \<in> set (weighted_sum d wxs). 0 \<le> v"
proof (induction wxs)
  case Nil
  then show ?case by simp
next
  case (Cons p wxs)
  obtain w x where p: "p = (w, x)" by (cases p)
  from Cons.prems p have w: "0 \<le> w" and x: "\<forall>v \<in> set x. 0 \<le> v"
    and rest: "\<forall>(w, x) \<in> set wxs. 0 \<le> w \<and> (\<forall>v \<in> set x. 0 \<le> v)" by auto
  from Cons.IH [OF rest] have ih: "\<forall>v \<in> set (weighted_sum d wxs). 0 \<le> v" .
  show ?case
  proof
    fix v assume "v \<in> set (weighted_sum d (p # wxs))"
    then obtain a b where "v = w * a + b" "a \<in> set x" "b \<in> set (weighted_sum d wxs)"
      by (auto simp: p elim!: in_set_zipE)
    with w x ih show "0 \<le> v" by auto
  qed
qed

lemma weighted_total_le:
  "\<forall>(w, x) \<in> set wxs. 0 \<le> w \<and> sum_list x \<le> 1 \<Longrightarrow>
     sum_list (map (\<lambda>(w, x). w * sum_list x) wxs)
       \<le> sum_list (map fst (wxs :: (real \<times> real list) list))"
proof (induction wxs)
  case Nil
  then show ?case by simp
next
  case (Cons p wxs)
  obtain w x where p: "p = (w, x)" by (cases p)
  from Cons.prems p have "0 \<le> w" "sum_list x \<le> 1" by auto
  then have "w * sum_list x \<le> w" by (simp add: mult_left_le)
  with Cons show ?case by (auto simp: p)
qed

lemma delete_col_set: "set (delete_col k row) \<subseteq> set row"
  by (auto simp: delete_col_def dest: in_set_takeD in_set_dropD)

lemma delete_col_sum:
  assumes "\<forall>v \<in> set row. (0::real) \<le> v"
  shows "sum_list (delete_col k row) \<le> sum_list row"
proof (cases "k < length row")
  case True
  then have "row = take k row @ row ! k # drop (Suc k) row"
    by (simp add: id_take_nth_drop)
  then have "sum_list row = sum_list (take k row) + row ! k + sum_list (drop (Suc k) row)"
    by (metis add.assoc sum_list.Cons sum_list_append)
  moreover have "0 \<le> row ! k" using assms True by simp
  ultimately show ?thesis by (simp add: delete_col_def)
next
  case False
  then show ?thesis by (simp add: delete_col_def)
qed

lemma cluster_transformed_rect:
  assumes "cluster gmm pprobs nanc = Inr (lm, param)"
  shows "transformed_input pprobs \<noteq> []
         \<and> (\<forall>x \<in> set (transformed_input pprobs). length x = length (hd (transformed_input pprobs)))"
proof -
  from assms have ne: "concat pprobs \<noteq> []"
    and rect: "list_all (\<lambda>v. length v = length (hd (concat pprobs))) (concat pprobs)"
    and pos: "hd (concat pprobs) \<noteq> []"
    unfolding cluster_def Let_def by (auto split: if_splits)
  let ?k = "whichdrop_of pprobs"
  have len: "length (delete_col ?k v) = length (delete_col ?k (hd (concat pprobs)))"
    if "v \<in> set (concat pprobs)" for v
    using that rect by (auto simp: delete_col_def list_all_iff)
  have hd: "hd (transformed_input pprobs) = delete_col ?k (hd (concat pprobs))"
    using ne by (simp add: transformed_input_def hd_map)
  show ?thesis using ne len hd by (auto simp: transformed_input_def)
qed

lemma entries_in_unit_interval_of_means:
  assumes ok: "cluster gmm pprobs nanc = Inr (lm, param)"
    and fitted: "gmm nanc (transformed_input pprobs) = Inr (labels, means)"
    and means: "\<forall>m \<in> set means. (\<forall>v \<in> set m. 0 \<le> v) \<and> sum_list m \<le> 1"
  shows "in_unit_interval param"
proof -
  from cluster_result [OF ok] fitted have
    p: "param = map (\<lambda>m. insert_col (whichdrop_of pprobs) (1 - sum_list m) m) means"
    by auto
  have "0 \<le> v \<and> v \<le> 1"
    if m: "m \<in> set means" and v: "v \<in> set (insert_col k (1 - sum_list m) m)" for m v k
  proof -
    from means m have nn: "\<forall>v \<in> set m. 0 \<le> v" and le: "sum_list m \<le> 1" by blast+
    from v have "v = 1 - sum_list m \<or> v \<in> set m" by (simp add: set_insert_col)
    then show ?thesis
    proof
      assume "v = 1 - sum_list m"
      with le sum_list_nonneg [of m] nn show ?thesis by simp
    next
      assume vm: "v \<in> set m"
      with sum_list_ge_member [OF nn vm] le nn show ?thesis by auto
    qed
  qed
  then show ?thesis by (auto simp: in_unit_interval_def p list_all_iff)
qed

text \<open>
  C5, amended.  When every panel-probability vector of the input has non-negative
  entries whose sum is at most 1, and the fitted means are weighted averages of the
  vectors handed to the library, every entry of the returned matrix lies in [0, 1].
  Nothing is clamped: the entry put back is 1 minus the sum of the fitted mean.
\<close>

theorem cluster_entries_in_unit_interval:
  assumes ok: "cluster gmm pprobs nanc = Inr (lm, param)"
    and input: "\<forall>loc \<in> set pprobs. \<forall>v \<in> set loc. (\<forall>p \<in> set v. 0 \<le> p) \<and> sum_list v \<le> 1"
    and fitted: "gmm nanc (transformed_input pprobs) = Inr (labels, means)"
    and avg: "\<forall>m \<in> set means. is_weighted_average m (transformed_input pprobs)"
  shows "in_unit_interval param"
proof -
  let ?X = "transformed_input pprobs"
  let ?d = "length (hd ?X)"
  from cluster_transformed_rect [OF ok] have rect: "\<forall>x \<in> set ?X. length x = ?d" by blast
  have rows: "(\<forall>v \<in> set x. 0 \<le> v) \<and> sum_list x \<le> 1" if "x \<in> set ?X" for x
  proof -
    from that obtain row where row: "row \<in> set (concat pprobs)"
      and x: "x = delete_col (whichdrop_of pprobs) row"
      by (auto simp: transformed_input_def)
    from row input have nn: "\<forall>p \<in> set row. 0 \<le> p" and le: "sum_list row \<le> 1" by auto
    from nn delete_col_set [of "whichdrop_of pprobs" row] have "\<forall>v \<in> set x. 0 \<le> v"
      by (auto simp: x)
    moreover from delete_col_sum [OF nn, of "whichdrop_of pprobs"] le have "sum_list x \<le> 1"
      by (simp add: x)
    ultimately show ?thesis by blast
  qed
  have "(\<forall>v \<in> set m. 0 \<le> v) \<and> sum_list m \<le> 1" if "m \<in> set means" for m
  proof -
    from avg that obtain w where lw: "length w = length ?X" and w: "\<forall>x \<in> set w. 0 \<le> x"
      and sw: "sum_list w \<le> 1" and m: "m = weighted_sum ?d (zip w ?X)"
      by (auto simp: is_weighted_average_def weighted_average_def)
    have a: "\<forall>(w, x) \<in> set (zip w ?X). length x = ?d"
      using rect by (auto dest: set_zip_rightD)
    have b: "\<forall>(w, x) \<in> set (zip w ?X). 0 \<le> w \<and> (\<forall>v \<in> set x. 0 \<le> v)"
      using w rows by (auto dest: set_zip_leftD set_zip_rightD)
    have c: "\<forall>(w, x) \<in> set (zip w ?X). 0 \<le> w \<and> sum_list x \<le> 1"
      using w rows by (auto dest: set_zip_leftD set_zip_rightD)
    have "sum_list m \<le> sum_list (map fst (zip w ?X))"
      unfolding m sum_list_weighted_sum [OF a] by (rule weighted_total_le [OF c])
    also have "map fst (zip w ?X) = w" using lw by simp
    finally have "sum_list m \<le> 1" using sw by simp
    with weighted_sum_nonneg [OF b] show ?thesis by (simp add: m)
  qed
  with entries_in_unit_interval_of_means [OF ok fitted] show ?thesis by blast
qed

lemma fitted_compositional_input:
  "one_component_fit 1 (transformed_input compositional_input) = Inr ([0, 0], [[0.2, 0.2]])"
  by code_simp

lemma avg_compositional:
  "is_weighted_average [0.2, 0.2] (transformed_input compositional_input)"
proof -
  have t: "transformed_input compositional_input = [[0.3, 0.2], [0.1, 0.2]]" by code_simp
  have "[0.2, 0.2] = weighted_average [1 / 2, 1 / 2] [[0.3, 0.2], [0.1, 0.2 :: real]]"
    by (simp add: weighted_average_def)
  then show ?thesis
    unfolding is_weighted_average_def t
    by (intro exI [of _ "[1 / 2, 1 / 2]"]) simp
qed

theorem cluster_entries_in_unit_interval_witness:
  "cluster one_component_fit compositional_input 1 = Inr ([[0, 0]], [[0.6, 0.2, 0.2]])
   \<and> list_all (list_all (\<lambda>v. list_all (\<lambda>p. 0 \<le> p) v \<and> sum_list v \<le> 1)) compositional_input
   \<and> one_component_fit 1 (transformed_input compositional_input) = Inr ([0, 0], [[0.2, 0.2]])
   \<and> is_weighted_average [0.2, 0.2] (transformed_input compositional_input)
   \<and> in_unit_interval [[0.6, 0.2, 0.2]]"
proof -
  have i: "\<forall>loc \<in> set compositional_input. \<forall>v \<in> set loc. (\<forall>p \<in> set v. 0 \<le> p) \<and> sum_list v \<le> 1"
    by (simp add: compositional_input_def)
  have i': "list_all (list_all (\<lambda>v. list_all (\<lambda>p. 0 \<le> p) v \<and> sum_list v \<le> 1)) compositional_input"
    by (simp add: compositional_input_def)
  have a: "\<forall>m \<in> set [[0.2, 0.2 :: real]]. is_weighted_average m (transformed_input compositional_input)"
    using avg_compositional by simp
  from cluster_entries_in_unit_interval
         [OF cluster_compositional_input i fitted_compositional_input a]
  show ?thesis
    using cluster_compositional_input fitted_compositional_input avg_compositional i' by simp
qed

subsection \<open>make_rho\<close>

lemma rhoi_vec_zip:
  assumes "length labels = length rho_vec"
  shows "rhoi_vec labels rho_vec i = map snd (filter (\<lambda>(l, r). l = i) (zip labels rho_vec))"
proof -
  have z: "zip labels rho_vec = map (\<lambda>k. (labels ! k, rho_vec ! k)) [0..<length labels]"
    using assms by (intro nth_equalityI) auto
  show ?thesis
    unfolding rhoi_vec_def z filter_map by (simp add: comp_def)
qed

lemma collect_map:
  "(\<forall>x \<in> set xs. f x = Inr (g x)) \<Longrightarrow> collect (map f xs) = Inr (map g xs)"
  by (induction xs) auto

lemma rhoi_vec_nonempty:
  assumes "i \<in> set labels"
  shows "rhoi_vec labels rho_vec i \<noteq> []"
proof -
  from assms obtain k where "k < length labels" "labels ! k = i"
    by (auto simp: in_set_conv_nth)
  then have "k \<in> set (filter (\<lambda>index. labels ! index = i) [0..<length labels])" by simp
  then show ?thesis unfolding rhoi_vec_def by (auto simp: filter_empty_conv)
qed

text \<open>
  C6.  When the two flattened tables have the same length and every component below
  nanc labels at least one position, \<open>make_rho\<close> returns, for each component i in order,
  the arithmetic mean of the recombination values at the positions labelled i.
\<close>

theorem make_rho_is_mean:
  assumes len: "length (concat label_matrix) = length (concat rho_matrix)"
    and all: "\<forall>i < nanc. i \<in> set (concat label_matrix)"
  shows "make_rho label_matrix rho_matrix nanc
           = Inr (map (\<lambda>i. spec_mean (spec_rho_values label_matrix rho_matrix i)) [0..<nanc])"
proof -
  have "rhoi (concat label_matrix) (concat rho_matrix) i
          = Inr (spec_mean (spec_rho_values label_matrix rho_matrix i))" if "i < nanc" for i
  proof -
    from all that have "rhoi_vec (concat label_matrix) (concat rho_matrix) i \<noteq> []"
      by (simp add: rhoi_vec_nonempty)
    then show ?thesis
      by (simp add: rhoi_def spec_mean_def spec_rho_values_def rhoi_vec_zip [OF len])
  qed
  then show ?thesis
    using len by (simp add: make_rho_def collect_map)
qed

text \<open>The example of the claim: two labels 0 with values 0.1, 0.1 and two labels 1 with 0.3, 0.5.\<close>

theorem make_rho_is_mean_witness:
  "length (concat [[0, 0], [1, 1 :: nat]]) = length (concat [[0.1, 0.1], [0.3, 0.5 :: real]])
   \<and> (0 :: nat) \<in> set (concat [[0, 0], [1, 1]]) \<and> (1 :: nat) \<in> set (concat [[0, 0], [1, 1]])
   \<and> make_rho [[0, 0], [1, 1]] [[0.1, 0.1], [0.3, 0.5]] 2 = Inr [0.1, 0.4]"
proof -
  have a: "length (concat [[0, 0], [1, 1 :: nat]]) = length (concat [[0.1, 0.1], [0.3, 0.5 :: real]])"
    by simp
  have b: "\<forall>i < (2 :: nat). i \<in> set (concat [[0, 0], [1, 1]])"
    by (auto simp: less_Suc_eq numeral_2_eq_2)
  have c: "map (\<lambda>i. spec_mean (spec_rho_values [[0, 0], [1, 1]] [[0.1, 0.1], [0.3, 0.5]] i)) [0..<2]
            = [0.1, 0.4]"
    by (simp add: spec_mean_def spec_rho_values_def upt_rec)
  show ?thesis using make_rho_is_mean [OF a b] c by simp
qed

subsection \<open>autoc\<close>

text \<open>
  C7.  With fewer than lag + 2 locations \<open>autoc\<close> returns the float 0.0, whatever the
  correlation function would compute.
\<close>

theorem autoc_short_degenerate:
  "length lm < lag + 2 \<Longrightarrow>
     autoc_with cc lm nanc lag = Inr (Degenerate 0) \<and> autoc lm nanc lag = Inr (Degenerate 0)"
  by (simp add: autoc_def autoc_with_def)

theorem autoc_short_degenerate_witness:
  "length [[0], [1 :: nat]] < 1 + 2 \<and> autoc [[0], [1]] 2 1 = Inr (Degenerate 0)"
  using autoc_short_degenerate [of "[[0], [1]]" 1 corrcoef 2] by simp

lemma index_pairs_1: "index_pairs (Suc 0) = [(0, 0)]"
  by (simp add: index_pairs_def)

lemma length_indicators: "length (indicators rows nhaps i) = nhaps * length rows"
  by (simp add: indicators_def length_concat comp_def sum_list_triv)

lemma rows_cover_sub:
  "\<forall>x \<in> set lm. nhaps \<le> length x \<Longrightarrow> set rows \<subseteq> set lm \<Longrightarrow> rows_cover nhaps rows"
  by (auto simp: rows_cover_def list_all_iff)

text \<open>
  C8.  For one ancestry, a lag of at least 1 and a label matrix of at least lag + 2
  rows, none shorter than the first, \<open>autoc\<close> returns a dictionary with the single key
  (0, 0), and the maximum cross-correlation is still its initial value -1.
\<close>

theorem autoc_single_ancestry:
  assumes lag: "1 \<le> lag" and len: "lag + 2 \<le> length lm"
    and rows: "\<forall>x \<in> set lm. length (hd lm) \<le> length x"
  shows "\<exists>v mn. autoc lm 1 lag = Inr (Correlations [((0, 0), v)] (- 1) mn)"
proof -
  let ?n = "length (hd lm)"
  have c0: "rows_cover ?n (slice_to_neg lag lm)"
    using rows lag
    by (intro rows_cover_sub [of lm]) (auto simp: slice_to_neg_def dest: in_set_takeD)
  have c1: "rows_cover ?n (drop lag lm)"
    using rows by (intro rows_cover_sub [of lm]) (auto dest: in_set_dropD)
  have l: "length (indicators (slice_to_neg lag lm) ?n 0) = length (indicators (drop lag lm) ?n 0)"
    using lag len by (simp add: length_indicators slice_to_neg_def)
  have "\<exists>ac. corrcoef (indicators (slice_to_neg lag lm) ?n 0) (indicators (drop lag lm) ?n 0) = Inr ac"
    using l by (simp add: corrcoef_def)
  then obtain ac where
    ac: "corrcoef (indicators (slice_to_neg lag lm) ?n 0) (indicators (drop lag lm) ?n 0) = Inr ac"
    by blast
  show ?thesis
    using len c0 c1 ac
    by (simp add: autoc_def autoc_with_def index_pairs_1 pair_step_def split: option.splits)
qed

theorem autoc_single_ancestry_witness:
  "(1 :: nat) \<le> 1 \<and> 1 + 2 \<le> length [[0], [0], [0 :: nat]]
   \<and> list_all (\<lambda>x. length (hd [[0], [0], [0 :: nat]]) \<le> length x) [[0], [0], [0]]
   \<and> (\<exists>v mn. autoc [[0], [0], [0]] 1 1 = Inr (Correlations [((0, 0), v)] (- 1) mn))"
proof -
  have a: "(1 :: nat) \<le> 1" by simp
  have b: "1 + 2 \<le> length [[0], [0], [0 :: nat]]" by simp
  have c: "\<forall>x \<in> set [[0], [0], [0 :: nat]]. length (hd [[0], [0], [0 :: nat]]) \<le> length x"
    by simp
  from autoc_single_ancestry [OF a b c] show ?thesis by simp
qed

lemma rounding_input_shape:
  "length rounding_input = 5" "length (hd rounding_input) = Suc 0"
  "rows_cover (Suc 0) (slice_to_neg (Suc 0) rounding_input)"
  "rows_cover (Suc 0) (drop (Suc 0) rounding_input)"
  by (simp_all add: rounding_input_def rows_cover_def slice_to_neg_def)

lemma rounding_input_indicators:
  "indicators (slice_to_neg (Suc 0) rounding_input) (Suc 0) 0 = [1, 0, 0, 0]"
  "indicators (drop (Suc 0) rounding_input) (Suc 0) 0 = [0, 0, 0, 1]"
  "indicators (slice_to_neg (Suc 0) rounding_input) (Suc 0) (Suc 0) = [0, 1, 1, 1]"
  "indicators (drop (Suc 0) rounding_input) (Suc 0) (Suc 0) = [1, 1, 1, 0]"
  by (simp_all add: indicators_def slice_to_neg_def rounding_input_def)

lemma corrcoef_thirds:
  "corrcoef [1, 0, 0, 0] [0, 0, 0, 1] = Inr (Some (- (1 / 3)))"
  "corrcoef [0, 1, 1, 1] [0, 0, 0, 1] = Inr (Some (1 / 3))"
  "corrcoef [0, 1, 1, 1] [1, 1, 1, 0] = Inr (Some (- (1 / 3)))"
  by (simp_all add: corrcoef_def cov_def mean_def clip_def real_sqrt_divide)

lemma round3_thirds:
  "round3 (1 / 3) = 333 / 1000" "round3 (- (1 / 3)) = - (333 / 1000)"
  by (simp_all add: round3_def rint_def Let_def)

lemma index_pairs_2: "index_pairs 2 = [(0, 0), (1, 0), (1, 1)]"
  by (simp add: index_pairs_def upt_rec)

lemma pair_step_result:
  assumes "pair_step cc lm lag nhaps (i1, i2) (acs0, mx0, mn0) = Inr (acs1, mx1, mn1)"
  shows "\<exists>ac. cc (indicators (slice_to_neg lag lm) nhaps i1) (indicators (drop lag lm) nhaps i2) = Inr ac
           \<and> coefficient cc lm lag nhaps i1 i2 = ac
           \<and> acs1 = AList.update (i2, i1) (map_option round3 ac) acs0
           \<and> mx1 = (case ac of None \<Rightarrow> mx0 | Some a \<Rightarrow> if i1 \<noteq> i2 \<and> a > mx0 then a else mx0)
           \<and> mn1 = (case ac of None \<Rightarrow> mn0 | Some a \<Rightarrow> if i1 = i2 \<and> a < mn0 then a else mn0)"
  using assms unfolding pair_step_def coefficient_def
  by (auto split: if_splits sum.splits)

lemma autoc_loop_dict:
  assumes "autoc_loop cc lm lag nhaps ps (acs0, mx0, mn0) = Inr (acs, mx, mn)"
  shows "(\<forall>(i1, i2) \<in> set ps.
            \<exists>ac. cc (indicators (slice_to_neg lag lm) nhaps i1) (indicators (drop lag lm) nhaps i2) = Inr ac
              \<and> map_of acs (i2, i1) = Some (map_option round3 ac))
         \<and> (\<forall>k. k \<notin> (\<lambda>(i1, i2). (i2, i1)) ` set ps \<longrightarrow> map_of acs k = map_of acs0 k)"
  using assms
proof (induction ps arbitrary: acs0 mx0 mn0)
  case Nil
  then show ?case by simp
next
  case (Cons p ps)
  obtain i1 i2 where p: "p = (i1, i2)" by (cases p)
  from Cons.prems obtain st1 where s1: "pair_step cc lm lag nhaps p (acs0, mx0, mn0) = Inr st1"
    and rest: "autoc_loop cc lm lag nhaps ps st1 = Inr (acs, mx, mn)"
    by (auto split: sum.splits)
  obtain acs1 mx1 mn1 where st1: "st1 = (acs1, mx1, mn1)" by (cases st1)
  from pair_step_result [OF s1 [unfolded p st1]] obtain ac where
    ac: "cc (indicators (slice_to_neg lag lm) nhaps i1) (indicators (drop lag lm) nhaps i2) = Inr ac"
    and a1: "acs1 = AList.update (i2, i1) (map_option round3 ac) acs0" by blast
  from Cons.IH [OF rest [unfolded st1]] have
    ih1: "\<forall>(j1, j2) \<in> set ps.
            \<exists>ac. cc (indicators (slice_to_neg lag lm) nhaps j1) (indicators (drop lag lm) nhaps j2) = Inr ac
              \<and> map_of acs (j2, j1) = Some (map_option round3 ac)"
    and ih2: "\<forall>k. k \<notin> (\<lambda>(i1, i2). (i2, i1)) ` set ps \<longrightarrow> map_of acs k = map_of acs1 k"
    by blast+
  have m1: "map_of acs1 = (map_of acs0)((i2, i1) \<mapsto> map_option round3 ac)"
    by (simp add: a1 update_conv')
  have here: "map_of acs (i2, i1) = Some (map_option round3 ac)"
  proof (cases "(i1, i2) \<in> set ps")
    case True
    with ih1 ac show ?thesis by fastforce
  next
    case False
    then have "(i2, i1) \<notin> (\<lambda>(i1, i2). (i2, i1)) ` set ps" by auto
    with ih2 m1 show ?thesis by simp
  qed
  have part1: "\<forall>(j1, j2) \<in> set (p # ps).
            \<exists>ac. cc (indicators (slice_to_neg lag lm) nhaps j1) (indicators (drop lag lm) nhaps j2) = Inr ac
              \<and> map_of acs (j2, j1) = Some (map_option round3 ac)"
    using ih1 ac here by (auto simp: p)
  have part2: "\<forall>k. k \<notin> (\<lambda>(i1, i2). (i2, i1)) ` set (p # ps) \<longrightarrow> map_of acs k = map_of acs0 k"
    using ih2 m1 by (auto simp: p)
  from part1 part2 show ?case by blast
qed

lemma autoc_loop_max:
  assumes "autoc_loop cc lm lag nhaps ps (acs0, mx0, mn0) = Inr (acs, mx, mn)"
  shows "mx0 \<le> mx
     \<and> (mx = mx0 \<or> (\<exists>(i1, i2) \<in> set ps. i1 \<noteq> i2 \<and> coefficient cc lm lag nhaps i1 i2 = Some mx))
     \<and> (\<forall>(i1, i2) \<in> set ps. \<forall>a. i1 \<noteq> i2 \<and> coefficient cc lm lag nhaps i1 i2 = Some a \<longrightarrow> a \<le> mx)"
  using assms
proof (induction ps arbitrary: acs0 mx0 mn0)
  case Nil
  then show ?case by simp
next
  case (Cons p ps)
  obtain i1 i2 where p: "p = (i1, i2)" by (cases p)
  from Cons.prems obtain st1 where s1: "pair_step cc lm lag nhaps p (acs0, mx0, mn0) = Inr st1"
    and rest: "autoc_loop cc lm lag nhaps ps st1 = Inr (acs, mx, mn)"
    by (auto split: sum.splits)
  obtain acs1 mx1 mn1 where st1: "st1 = (acs1, mx1, mn1)" by (cases st1)
  from pair_step_result [OF s1 [unfolded p st1]] obtain ac where
    c: "coefficient cc lm lag nhaps i1 i2 = ac"
    and m1: "mx1 = (case ac of None \<Rightarrow> mx0 | Some a \<Rightarrow> if i1 \<noteq> i2 \<and> a > mx0 then a else mx0)"
    by blast
  from Cons.IH [OF rest [unfolded st1]] have
    ih1: "mx1 \<le> mx"
    and ih2: "mx = mx1 \<or> (\<exists>(i1, i2) \<in> set ps. i1 \<noteq> i2 \<and> coefficient cc lm lag nhaps i1 i2 = Some mx)"
    and ih3: "\<forall>(i1, i2) \<in> set ps. \<forall>a. i1 \<noteq> i2 \<and> coefficient cc lm lag nhaps i1 i2 = Some a \<longrightarrow> a \<le> mx"
    by blast+
  have s0: "mx0 \<le> mx1" using m1 by (auto split: option.splits)
  have s1': "mx1 = mx0 \<or> (i1 \<noteq> i2 \<and> coefficient cc lm lag nhaps i1 i2 = Some mx1)"
    using m1 c by (auto split: option.splits)
  have s2: "\<forall>a. i1 \<noteq> i2 \<and> coefficient cc lm lag nhaps i1 i2 = Some a \<longrightarrow> a \<le> mx1"
    using m1 c by (auto split: option.splits)
  have g1: "mx0 \<le> mx" using s0 ih1 by simp
  have g2: "mx = mx0 \<or> (\<exists>(i1, i2) \<in> set (p # ps). i1 \<noteq> i2 \<and> coefficient cc lm lag nhaps i1 i2 = Some mx)"
    using ih2 s1' by (auto simp: p)
  have g3: "\<forall>(i1, i2) \<in> set (p # ps). \<forall>a. i1 \<noteq> i2 \<and> coefficient cc lm lag nhaps i1 i2 = Some a \<longrightarrow> a \<le> mx"
    using ih3 s2 ih1 by (auto simp: p) 
  from g1 g2 g3 show ?case by blast
qed

lemma autoc_loop_min:
  assumes "autoc_loop cc lm lag nhaps ps (acs0, mx0, mn0) = Inr (acs, mx, mn)"
  shows "mn \<le> mn0
     \<and> (mn = mn0 \<or> (\<exists>(i1, i2) \<in> set ps. i1 = i2 \<and> coefficient cc lm lag nhaps i1 i2 = Some mn))
     \<and> (\<forall>(i1, i2) \<in> set ps. \<forall>a. i1 = i2 \<and> coefficient cc lm lag nhaps i1 i2 = Some a \<longrightarrow> mn \<le> a)"
  using assms
proof (induction ps arbitrary: acs0 mx0 mn0)
  case Nil
  then show ?case by simp
next
  case (Cons p ps)
  obtain i1 i2 where p: "p = (i1, i2)" by (cases p)
  from Cons.prems obtain st1 where s1: "pair_step cc lm lag nhaps p (acs0, mx0, mn0) = Inr st1"
    and rest: "autoc_loop cc lm lag nhaps ps st1 = Inr (acs, mx, mn)"
    by (auto split: sum.splits)
  obtain acs1 mx1 mn1 where st1: "st1 = (acs1, mx1, mn1)" by (cases st1)
  from pair_step_result [OF s1 [unfolded p st1]] obtain ac where
    c: "coefficient cc lm lag nhaps i1 i2 = ac"
    and m1: "mn1 = (case ac of None \<Rightarrow> mn0 | Some a \<Rightarrow> if i1 = i2 \<and> a < mn0 then a else mn0)"
    by blast
  from Cons.IH [OF rest [unfolded st1]] have
    ih1: "mn \<le> mn1"
    and ih2: "mn = mn1 \<or> (\<exists>(i1, i2) \<in> set ps. i1 = i2 \<and> coefficient cc lm lag nhaps i1 i2 = Some mn)"
    and ih3: "\<forall>(i1, i2) \<in> set ps. \<forall>a. i1 = i2 \<and> coefficient cc lm lag nhaps i1 i2 = Some a \<longrightarrow> mn \<le> a"
    by blast+
  have s0: "mn1 \<le> mn0" using m1 by (auto split: option.splits)
  have s1': "mn1 = mn0 \<or> (i1 = i2 \<and> coefficient cc lm lag nhaps i1 i2 = Some mn1)"
    using m1 c by (auto split: option.splits)
  have s2: "\<forall>a. i1 = i2 \<and> coefficient cc lm lag nhaps i1 i2 = Some a \<longrightarrow> mn1 \<le> a"
    using m1 c by (auto split: option.splits)
  have g1: "mn \<le> mn0" using s0 ih1 by simp
  have g2: "mn = mn0 \<or> (\<exists>(i1, i2) \<in> set (p # ps). i1 = i2 \<and> coefficient cc lm lag nhaps i1 i2 = Some mn)"
    using ih2 s1' by (auto simp: p)
  have g3: "\<forall>(i1, i2) \<in> set (p # ps). \<forall>a. i1 = i2 \<and> coefficient cc lm lag nhaps i1 i2 = Some a \<longrightarrow> mn \<le> a"
    using ih3 s2 ih1 by (auto simp: p)
  from g1 g2 g3 show ?case by blast
qed

lemma in_index_pairs: "(i1, i2) \<in> set (index_pairs nanc) \<longleftrightarrow> i2 \<le> i1 \<and> i1 < nanc"
proof
  assume "(i1, i2) \<in> set (index_pairs nanc)"
  then show "i2 \<le> i1 \<and> i1 < nanc" by (auto simp: index_pairs_def)
next
  assume "i2 \<le> i1 \<and> i1 < nanc"
  then have "i1 \<in> set [0..<nanc]" "(i1, i2) \<in> set (map (\<lambda>i2. (i1, i2)) [0..<i1 + 1])"
    by auto
  then show "(i1, i2) \<in> set (index_pairs nanc)"
    unfolding index_pairs_def set_concat by (intro UN_I [of "map (\<lambda>i2. (i1, i2)) [0..<i1 + 1]"]) auto
qed

lemma rint_near: "\<bar>real_of_int (rint x) - x\<bar> \<le> 1 / 2"
proof -
  have "real_of_int \<lfloor>x\<rfloor> \<le> x" "x < real_of_int \<lfloor>x\<rfloor> + 1" by linarith+
  then show ?thesis unfolding rint_def Let_def by (auto simp: abs_le_iff)
qed

lemma round3_near: "\<bar>round3 x - x\<bar> \<le> 1 / 2000"
proof -
  define r where "r = real_of_int (rint (x * 1000))"
  from rint_near [of "x * 1000"] have "\<bar>r - x * 1000\<bar> \<le> 1 / 2"
    by (simp only: r_def)
  then have "r - x * 1000 \<le> 1 / 2" "x * 1000 - r \<le> 1 / 2"
    by linarith+
  then have "\<bar>r / 1000 - x\<bar> \<le> 1 / 2000" by linarith
  then show ?thesis unfolding round3_def r_def .
qed

lemma round3_ties: "round3 0.0005 = 0" "round3 0.0015 = 0.002" "round3 0.0025 = 0.002"
  by (simp_all add: round3_def rint_def Let_def)


lemma autoc_with_loop:
  assumes "autoc_with cc lm nanc lag = Inr (Correlations acs mx mn)"
  shows "autoc_loop cc lm lag (length (hd lm)) (index_pairs nanc) ([], - 1, 1) = Inr (acs, mx, mn)"
  using assms unfolding autoc_with_def by (auto split: if_splits sum.splits)

lemma autoc_rounding_input:
  "autoc rounding_input 2 1
     = Inr (Correlations
              [((0, 0), Some (- 0.333)), ((0, 1), Some 0.333), ((1, 1), Some (- 0.333))]
              (1 / 3) (- (1 / 3)))"
  by (simp add: autoc_def autoc_with_def index_pairs_2 pair_step_def rounding_input_shape
        rounding_input_indicators corrcoef_thirds round3_thirds)

lemma rounding_input_differs:
  "\<exists>lm nanc acs mx mn. autoc lm nanc 1 = Inr (Correlations acs mx mn)
      \<and> Some mx \<notin> snd ` set acs \<and> Some mn \<notin> snd ` set acs"
proof -
  let ?acs = "[((0 :: nat, 0 :: nat), Some (- 0.333 :: real)), ((0, 1), Some 0.333), ((1, 1), Some (- 0.333))]"
  have "Some (1 / 3 :: real) \<notin> snd ` set ?acs" "Some (- (1 / 3) :: real) \<notin> snd ` set ?acs"
    by simp_all
  with autoc_rounding_input show ?thesis by blast
qed

text \<open>
  C10.  Whenever \<open>autoc\<close> returns its tuple, the dictionary holds, under each key
  (i2, i1) with i2 at most i1 below nanc and under no other key, the coefficient of that
  pair rounded to three decimals (a multiple of 0.001 at most 0.0005 away; the ties
  0.0005 and 0.0015 go to the even multiples 0 and 0.002).  The returned maximum is the largest unrounded coefficient of the
  pairs with i2 below i1, or -1 when none exceeds it; the returned minimum is the smallest
  unrounded coefficient of the pairs with i1 = i2, or 1 when none is below it.  For some
  input neither returned value is a value of the dictionary: on \<open>rounding_input\<close> the
  coefficients are -1/3, 1/3 and -1/3, the dictionary holds -0.333, 0.333 and -0.333, and
  the returned values are 1/3 and -1/3.
\<close>

theorem autoc_entries_rounded_extremes_unrounded:
  assumes run: "autoc_with cc lm nanc lag = Inr (Correlations acs mx mn)"
  shows "(\<forall>i1 i2. i2 \<le> i1 \<and> i1 < nanc \<longrightarrow>
            map_of acs (i2, i1)
              = Some (map_option round3 (coefficient cc lm lag (length (hd lm)) i1 i2)))
    \<and> (\<forall>k. k \<notin> {(i2, i1). i2 \<le> i1 \<and> i1 < nanc} \<longrightarrow> map_of acs k = None)
    \<and> (\<forall>x. \<bar>round3 x - x\<bar> \<le> 1 / 2000 \<and> (\<exists>k :: int. round3 x = real_of_int k / 1000))
    \<and> round3 0.0005 = 0 \<and> round3 0.0015 = 0.002
    \<and> - 1 \<le> mx
    \<and> (mx = - 1 \<or> (\<exists>i1 i2. i2 < i1 \<and> i1 < nanc
                         \<and> coefficient cc lm lag (length (hd lm)) i1 i2 = Some mx))
    \<and> (\<forall>i1 i2 a. i2 < i1 \<and> i1 < nanc
                    \<and> coefficient cc lm lag (length (hd lm)) i1 i2 = Some a \<longrightarrow> a \<le> mx)
    \<and> mn \<le> 1
    \<and> (mn = 1 \<or> (\<exists>i. i < nanc \<and> coefficient cc lm lag (length (hd lm)) i i = Some mn))
    \<and> (\<forall>i a. i < nanc \<and> coefficient cc lm lag (length (hd lm)) i i = Some a \<longrightarrow> mn \<le> a)
    \<and> (\<exists>lm' nanc' acs' mx' mn'. autoc lm' nanc' 1 = Inr (Correlations acs' mx' mn')
           \<and> Some mx' \<notin> snd ` set acs' \<and> Some mn' \<notin> snd ` set acs')"
proof -
  let ?n = "length (hd lm)"
  note loop = autoc_with_loop [OF run]
  from autoc_loop_dict [OF loop] have
    d1: "\<forall>(i1, i2) \<in> set (index_pairs nanc).
            \<exists>ac. cc (indicators (slice_to_neg lag lm) ?n i1) (indicators (drop lag lm) ?n i2) = Inr ac
              \<and> map_of acs (i2, i1) = Some (map_option round3 ac)"
    and d2: "\<forall>k. k \<notin> (\<lambda>(i1, i2). (i2, i1)) ` set (index_pairs nanc) \<longrightarrow> map_of acs k = map_of [] k"
    by blast+
  have e1: "\<forall>i1 i2. i2 \<le> i1 \<and> i1 < nanc \<longrightarrow>
            map_of acs (i2, i1) = Some (map_option round3 (coefficient cc lm lag ?n i1 i2))"
  proof (intro allI impI)
    fix i1 i2 assume "i2 \<le> i1 \<and> i1 < nanc"
    then have "(i1, i2) \<in> set (index_pairs nanc)" by (simp add: in_index_pairs)
    with d1 obtain ac where
      "cc (indicators (slice_to_neg lag lm) ?n i1) (indicators (drop lag lm) ?n i2) = Inr ac"
      "map_of acs (i2, i1) = Some (map_option round3 ac)" by fastforce
    then show "map_of acs (i2, i1) = Some (map_option round3 (coefficient cc lm lag ?n i1 i2))"
      by (simp add: coefficient_def)
  qed
  have e2: "\<forall>k. k \<notin> {(i2, i1). i2 \<le> i1 \<and> i1 < nanc} \<longrightarrow> map_of acs k = None"
  proof (intro allI impI)
    fix k :: "nat \<times> nat" assume k: "k \<notin> {(i2, i1). i2 \<le> i1 \<and> i1 < nanc}"
    have "k \<notin> (\<lambda>(i1, i2). (i2, i1)) ` set (index_pairs nanc)"
    proof
      assume "k \<in> (\<lambda>(i1, i2). (i2, i1)) ` set (index_pairs nanc)"
      then obtain i1 i2 where "(i1, i2) \<in> set (index_pairs nanc)" "k = (i2, i1)" by auto
      with k show False by (simp add: in_index_pairs)
    qed
    with d2 have "map_of acs k = map_of [] k" by blast
    then show "map_of acs k = None" by simp
  qed
  have e3: "\<forall>x. \<bar>round3 x - x\<bar> \<le> 1 / 2000 \<and> (\<exists>k :: int. round3 x = real_of_int k / 1000)"
    using round3_near by (auto simp: round3_def)
  from autoc_loop_max [OF loop] have
    m1: "- 1 \<le> mx"
    and m2: "mx = - 1 \<or> (\<exists>(i1, i2) \<in> set (index_pairs nanc). i1 \<noteq> i2 \<and> coefficient cc lm lag ?n i1 i2 = Some mx)"
    and m3: "\<forall>(i1, i2) \<in> set (index_pairs nanc). \<forall>a. i1 \<noteq> i2 \<and> coefficient cc lm lag ?n i1 i2 = Some a \<longrightarrow> a \<le> mx"
    by blast+
  have f2: "mx = - 1 \<or> (\<exists>i1 i2. i2 < i1 \<and> i1 < nanc \<and> coefficient cc lm lag ?n i1 i2 = Some mx)"
    using m2 by (auto simp: in_index_pairs)
  have f3: "\<forall>i1 i2 a. i2 < i1 \<and> i1 < nanc \<and> coefficient cc lm lag ?n i1 i2 = Some a \<longrightarrow> a \<le> mx"
  proof (intro allI impI)
    fix i1 i2 a assume h: "i2 < i1 \<and> i1 < nanc \<and> coefficient cc lm lag ?n i1 i2 = Some a"
    then have "(i1, i2) \<in> set (index_pairs nanc)" "i1 \<noteq> i2" by (simp_all add: in_index_pairs)
    with m3 h show "a \<le> mx" by fastforce
  qed
  from autoc_loop_min [OF loop] have
    n1: "mn \<le> 1"
    and n2: "mn = 1 \<or> (\<exists>(i1, i2) \<in> set (index_pairs nanc). i1 = i2 \<and> coefficient cc lm lag ?n i1 i2 = Some mn)"
    and n3: "\<forall>(i1, i2) \<in> set (index_pairs nanc). \<forall>a. i1 = i2 \<and> coefficient cc lm lag ?n i1 i2 = Some a \<longrightarrow> mn \<le> a"
    by blast+
  have g2: "mn = 1 \<or> (\<exists>i. i < nanc \<and> coefficient cc lm lag ?n i i = Some mn)"
    using n2 by (auto simp: in_index_pairs)
  have g3: "\<forall>i a. i < nanc \<and> coefficient cc lm lag ?n i i = Some a \<longrightarrow> mn \<le> a"
  proof (intro allI impI)
    fix i a assume h: "i < nanc \<and> coefficient cc lm lag ?n i i = Some a"
    then have "(i, i) \<in> set (index_pairs nanc)" by (simp add: in_index_pairs)
    with n3 h show "mn \<le> a" by fastforce
  qed
  from e1 e2 e3 round3_ties(1,2) m1 f2 f3 n1 g2 g3 rounding_input_differs
  show ?thesis by blast
qed

theorem autoc_entries_rounded_extremes_unrounded_witness:
  "autoc_with corrcoef rounding_input 2 1
     = Inr (Correlations
              [((0, 0), Some (- 0.333)), ((0, 1), Some 0.333), ((1, 1), Some (- 0.333))]
              (1 / 3) (- (1 / 3)))
   \<and> coefficient corrcoef rounding_input 1 (length (hd rounding_input)) 1 0 = Some (1 / 3)
   \<and> map_of [((0 :: nat, 0 :: nat), Some (- 0.333 :: real)), ((0, 1), Some 0.333), ((1, 1), Some (- 0.333))] (0, 1)
       = Some (map_option round3 (coefficient corrcoef rounding_input 1 (length (hd rounding_input)) 1 0))
   \<and> round3 (1 / 3) = 0.333"
proof -
  have run: "autoc_with corrcoef rounding_input 2 1
     = Inr (Correlations
              [((0, 0), Some (- 0.333)), ((0, 1), Some 0.333), ((1, 1), Some (- 0.333))]
              (1 / 3) (- (1 / 3)))"
    using autoc_rounding_input by (simp add: autoc_def)
  have c: "coefficient corrcoef rounding_input 1 (length (hd rounding_input)) 1 0 = Some (1 / 3)"
    by (simp add: coefficient_def rounding_input_shape rounding_input_indicators corrcoef_thirds)
  have "map_of [((0 :: nat, 0 :: nat), Some (- 0.333 :: real)), ((0, 1), Some 0.333), ((1, 1), Some (- 0.333))] (0, 1)
       = Some (map_option round3 (coefficient corrcoef rounding_input 1 (length (hd rounding_input)) 1 0))"
    by (rule autoc_entries_rounded_extremes_unrounded
          [OF run, THEN conjunct1, rule_format, of 0 1]) simp
  with run c show ?thesis by (simp add: round3_thirds)
qed

lemma paired_locations_eq:
  assumes "1 \<le> lag" "lag \<le> n"
  shows "paired_locations n lag = map (\<lambda>t. (t, t + lag)) [0..<n - lag]"
  using assms
  by (intro nth_equalityI) (auto simp: paired_locations_def slice_to_neg_def)

lemma slice_to_neg_nth:
  assumes "1 \<le> lag" "lag \<le> length lm"
  shows "slice_to_neg lag lm = map (\<lambda>t. lm ! t) [0..<length lm - lag]"
  using assms by (intro nth_equalityI) (auto simp: slice_to_neg_def)

lemma drop_nth:
  assumes "lag \<le> length lm"
  shows "drop lag lm = map (\<lambda>t. lm ! (t + lag)) [0..<length lm - lag]"
  using assms by (intro nth_equalityI) (auto simp: add.commute)

lemma indicators_lagged:
  assumes "1 \<le> lag" "lag \<le> length lm"
  shows "indicators (slice_to_neg lag lm) nhaps i = lagged_indicators lm lag nhaps 0 i"
    and "indicators (drop lag lm) nhaps i = lagged_indicators lm lag nhaps lag i"
  unfolding indicators_def lagged_indicators_def
    slice_to_neg_nth [OF assms] drop_nth [OF assms(2)]
  by (simp_all add: comp_def)

lemma crosses_chromosomes_iff:
  assumes "1 \<le> lag" "lag \<le> length (panelprobs s)"
  shows "crosses_chromosomes s lag
           = (\<exists>t < length (panelprobs s) - lag. locchroms s ! t \<noteq> locchroms s ! (t + lag))"
  unfolding crosses_chromosomes_def paired_locations_eq [OF assms]
  by (auto simp: list_ex_iff)

lemma boundary_shape:
  "length boundary_labels = 4" "length (hd boundary_labels) = Suc 0"
  "rows_cover (Suc 0) (slice_to_neg (Suc 0) boundary_labels)"
  "rows_cover (Suc 0) (drop (Suc 0) boundary_labels)"
  by (simp_all add: boundary_labels_def rows_cover_def slice_to_neg_def)

lemma boundary_indicators:
  "indicators (slice_to_neg (Suc 0) boundary_labels) (Suc 0) 0 = [0, 0, 1]"
  "indicators (drop (Suc 0) boundary_labels) (Suc 0) 0 = [0, 1, 1]"
  "indicators (slice_to_neg (Suc 0) boundary_labels) (Suc 0) (Suc 0) = [1, 1, 0]"
  "indicators (drop (Suc 0) boundary_labels) (Suc 0) (Suc 0) = [1, 0, 0]"
  by (simp_all add: indicators_def slice_to_neg_def boundary_labels_def)

lemma sqrt_third_twice: "a * sqrt (1 / 3) * sqrt (1 / 3) = a / 3"
  by (simp add: mult.assoc)

lemma corrcoef_halves:
  "corrcoef [0, 0, 1] [0, 1, 1] = Inr (Some (1 / 2))"
  "corrcoef [1, 1, 0] [0, 1, 1] = Inr (Some (- (1 / 2)))"
  "corrcoef [1, 1, 0] [1, 0, 0] = Inr (Some (1 / 2))"
  by (simp_all add: corrcoef_def cov_def mean_def clip_def sqrt_third_twice)

lemma round3_halves: "round3 (1 / 2) = 1 / 2" "round3 (- (1 / 2)) = - (1 / 2)" "round3 1 = 1"
  by (simp_all add: round3_def rint_def Let_def)

lemma autoc_boundary_labels:
  "autoc boundary_labels 2 1
     = Inr (Correlations [((0, 0), Some 0.5), ((0, 1), Some (- 0.5)), ((1, 1), Some 0.5)]
              (- 0.5) 0.5)"
  by (simp add: autoc_def autoc_with_def index_pairs_2 pair_step_def boundary_shape
        boundary_indicators corrcoef_halves round3_halves)

lemma count_boundary_labels:
  "autoc_with count_both boundary_labels 2 1
     = Inr (Correlations [((0, 0), Some 1), ((0, 1), Some 1), ((1, 1), Some 1)] 1 1)"
  by (simp add: autoc_with_def index_pairs_2 pair_step_def boundary_shape
        boundary_indicators count_both_def round3_halves)

text \<open>
  C3, as stated: no pair of locations that \<open>autoc\<close> puts side by side spans two
  chromosomes.  It fails on \<open>two_chrom_input\<close>: the reading loop returns one list of four
  locations, the first two opened by lines of chr1 and the last two by lines of chr2,
  and for lag 1 the paired locations are (0,1), (1,2) and (2,3).  With label 1 on chr1
  and label 0 on chr2 no two locations of one chromosome differ in their label, yet
  \<open>autoc\<close> counts one sample with label 1 at t and label 0 at t + 1, the pair (1,2) across
  the boundary, and its entry for the key (0, 1) is -0.5.
\<close>

theorem cross_chromosome_pair_counterexample:
  "(case read_panels 2 two_chrom_input of
      Inl e \<Rightarrow> False
    | Inr s \<Rightarrow> locchroms s = [''chr1'', ''chr1'', ''chr2'', ''chr2'']
               \<and> length (panelprobs s) = 4
               \<and> paired_locations (length (panelprobs s)) 1 = [(0, 1), (1, 2), (2, 3)]
               \<and> crosses_chromosomes s 1
               \<and> cluster two_cluster_fit (panelprobs s) 2
                   = Inr (boundary_labels, [[0.15, 0.85], [0.65, 0.35]]))
   \<and> boundary_labels = [[1], [1], [0], [0]]
   \<and> autoc_with count_both boundary_labels 2 1
       = Inr (Correlations [((0, 0), Some 1), ((0, 1), Some 1), ((1, 1), Some 1)] 1 1)
   \<and> autoc boundary_labels 2 1
       = Inr (Correlations [((0, 0), Some 0.5), ((0, 1), Some (- 0.5)), ((1, 1), Some 0.5)]
                (- 0.5) 0.5)"
proof -
  have r: "\<exists>s. read_panels 2 two_chrom_input = Inr s
            \<and> locchroms s = [''chr1'', ''chr1'', ''chr2'', ''chr2'']
            \<and> panelprobs s = [[[0.6, 0.4]], [[0.7, 0.3]], [[0.2, 0.8]], [[0.1, 0.9]]]"
    by (simp add: two_chrom_input_def read_defs)
  then obtain s where s: "read_panels 2 two_chrom_input = Inr s"
    "locchroms s = [''chr1'', ''chr1'', ''chr2'', ''chr2'']"
    "panelprobs s = [[[0.6, 0.4]], [[0.7, 0.3]], [[0.2, 0.8]], [[0.1, 0.9]]]" by blast
  have c: "cluster two_cluster_fit [[[0.6, 0.4]], [[0.7, 0.3]], [[0.2, 0.8]], [[0.1, 0.9]]] 2
             = Inr (boundary_labels, [[0.15, 0.85], [0.65, 0.35]])"
    by code_simp
  have p: "paired_locations 4 1 = [(0, 1), (1, 2), (2, 3)]"
    by (simp add: paired_locations_def slice_to_neg_def upt_rec)
  have x: "crosses_chromosomes s 1"
    by (simp add: crosses_chromosomes_def s paired_locations_def slice_to_neg_def upt_rec)
  have len: "length (panelprobs s) = 4" by (simp add: s)
  have p': "paired_locations (length (panelprobs s)) 1 = [(0, 1), (1, 2), (2, 3)]"
    by (simp only: len p)
  have c': "cluster two_cluster_fit (panelprobs s) 2
              = Inr (boundary_labels, [[0.15, 0.85], [0.65, 0.35]])"
    by (simp only: s c)
  have inner: "(case read_panels 2 two_chrom_input of
      Inl e \<Rightarrow> False
    | Inr s \<Rightarrow> locchroms s = [''chr1'', ''chr1'', ''chr2'', ''chr2'']
               \<and> length (panelprobs s) = 4
               \<and> paired_locations (length (panelprobs s)) 1 = [(0, 1), (1, 2), (2, 3)]
               \<and> crosses_chromosomes s 1
               \<and> cluster two_cluster_fit (panelprobs s) 2
                   = Inr (boundary_labels, [[0.15, 0.85], [0.65, 0.35]]))"
    unfolding s(1) sum.case using s(2) len p' x c' by blast
  have bl: "boundary_labels = [[1], [1], [0], [0]]" by (simp add: boundary_labels_def)
  from inner bl count_boundary_labels autoc_boundary_labels show ?thesis by blast
qed

text \<open>
  C3, amended.  For a lag of at least 1 and a label matrix of N rows, N at least
  lag + 2, the correlation of a pair (i1, i2) is taken of the indicator of i1 at location
  t and the indicator of i2 at location t + lag for every t below N - lag and every
  haplotype, and each dictionary entry of \<open>autoc\<close> is that correlation, rounded.  No
  pair (t, t + lag) is left out: the paired locations cross a chromosome boundary
  exactly when some t below N - lag and t + lag lie on different chromosomes.
\<close>

theorem autoc_pairs_every_location:
  assumes lag: "1 \<le> lag" and len: "lag + 2 \<le> length lm"
  shows "pair_step cc lm lag nhaps (i1, i2) st
           = pair_step (\<lambda>xs ys. cc (lagged_indicators lm lag nhaps 0 i1)
                                    (lagged_indicators lm lag nhaps lag i2))
               lm lag nhaps (i1, i2) st
    \<and> (\<forall>acs mx mn j1 j2.
          autoc_with cc lm nanc lag = Inr (Correlations acs mx mn) \<and> j2 \<le> j1 \<and> j1 < nanc \<longrightarrow>
          (\<exists>ac. cc (lagged_indicators lm lag (length (hd lm)) 0 j1)
                    (lagged_indicators lm lag (length (hd lm)) lag j2) = Inr ac
               \<and> map_of acs (j2, j1) = Some (map_option round3 ac)))
    \<and> (\<forall>s. length (panelprobs s) = length lm \<longrightarrow>
          crosses_chromosomes s lag
            = (\<exists>t < length lm - lag. locchroms s ! t \<noteq> locchroms s ! (t + lag)))"
proof -
  have l: "lag \<le> length lm" using len by simp
  note ind = indicators_lagged [OF lag l]
  have a: "pair_step cc lm lag nhaps (i1, i2) st
           = pair_step (\<lambda>xs ys. cc (lagged_indicators lm lag nhaps 0 i1)
                                    (lagged_indicators lm lag nhaps lag i2))
               lm lag nhaps (i1, i2) st"
    by (cases st) (simp add: pair_step_def ind)
  have b: "\<forall>acs mx mn j1 j2.
          autoc_with cc lm nanc lag = Inr (Correlations acs mx mn) \<and> j2 \<le> j1 \<and> j1 < nanc \<longrightarrow>
          (\<exists>ac. cc (lagged_indicators lm lag (length (hd lm)) 0 j1)
                    (lagged_indicators lm lag (length (hd lm)) lag j2) = Inr ac
               \<and> map_of acs (j2, j1) = Some (map_option round3 ac))"
  proof (intro allI impI)
    fix acs mx mn j1 j2
    assume h: "autoc_with cc lm nanc lag = Inr (Correlations acs mx mn) \<and> j2 \<le> j1 \<and> j1 < nanc"
    then have "(j1, j2) \<in> set (index_pairs nanc)" by (simp add: in_index_pairs)
    with autoc_loop_dict [OF autoc_with_loop] h
    show "\<exists>ac. cc (lagged_indicators lm lag (length (hd lm)) 0 j1)
                    (lagged_indicators lm lag (length (hd lm)) lag j2) = Inr ac
               \<and> map_of acs (j2, j1) = Some (map_option round3 ac)"
      unfolding ind [symmetric] by fastforce
  qed
  have c: "\<forall>s. length (panelprobs s) = length lm \<longrightarrow>
          crosses_chromosomes s lag
            = (\<exists>t < length lm - lag. locchroms s ! t \<noteq> locchroms s ! (t + lag))"
    using crosses_chromosomes_iff [OF lag] l by auto
  from a b c show ?thesis by blast
qed

theorem autoc_pairs_every_location_witness:
  "(1 :: nat) \<le> 1 \<and> 1 + 2 \<le> length boundary_labels
   \<and> lagged_indicators boundary_labels 1 1 0 1 = [1, 1, 0]
   \<and> lagged_indicators boundary_labels 1 1 1 0 = [0, 1, 1]
   \<and> pair_step count_both boundary_labels 1 1 (1, 0) ([], - 1, 1)
       = pair_step (\<lambda>xs ys. count_both [1, 1, 0] [0, 1, 1]) boundary_labels 1 1 (1, 0) ([], - 1, 1)
   \<and> pair_step count_both boundary_labels 1 1 (1, 0) ([], - 1, 1) = Inr ([((0, 1), Some 1)], 1, 1)"
proof -
  have a: "(1 :: nat) \<le> 1" by simp
  have b: "1 + 2 \<le> length boundary_labels" by (simp add: boundary_labels_def)
  have v: "lagged_indicators boundary_labels 1 1 0 1 = [1, 1, 0]"
    "lagged_indicators boundary_labels 1 1 1 0 = [0, 1, 1]"
    by (simp_all add: lagged_indicators_def boundary_labels_def upt_rec)
  have e: "pair_step count_both boundary_labels 1 1 (1, 0) ([], - 1, 1)
       = pair_step (\<lambda>xs ys. count_both [1, 1, 0] [0, 1, 1]) boundary_labels 1 1 (1, 0) ([], - 1, 1)"
    using autoc_pairs_every_location [OF a b, THEN conjunct1, of count_both 1 1 0 "([], - 1, 1)"]
    by (simp only: v)
  have r: "pair_step (\<lambda>xs ys. count_both [1, 1, 0] [0, 1, 1]) boundary_labels 1 1 (1, 0) ([], - 1, 1)
             = Inr ([((0, 1), Some 1)], 1, 1)"
    by (simp add: pair_step_def boundary_shape count_both_def round3_halves)
  from a b v e r show ?thesis by simp
qed

subsection \<open>The emission-error value\<close>





subsection \<open>The script as a whole\<close>

lemma read_short_input:
  "\<exists>s. read_panels 2 short_input = Inr s
     \<and> panelprobs s = [[[0.6, 0.4]], [[0.8, 0.2]]] \<and> rhovals s = [[0.1], [0.3]]"
  by (simp add: short_input_def read_defs)

lemma cluster_short_input:
  "cluster one_component_fit [[[0.6, 0.4]], [[0.8, 0.2]]] 1 = Inr ([[0], [0]], [[0.7, 0.3]])"
  by code_simp

lemma make_rho_short_input: "make_rho [[0], [0]] [[0.1], [0.3]] 1 = Inr [0.2]"
  by (simp add: make_rho_def rhoi_def rhoi_vec_def upt_rec)

lemma main_short_input: "main one_component_fit 1 4 [''A'', ''B''] short_input = Inl TypeError"
proof -
  from read_short_input obtain s where s: "read_panels 2 short_input = Inr s"
    "panelprobs s = [[[0.6, 0.4]], [[0.8, 0.2]]]" "rhovals s = [[0.1], [0.3]]" by blast
  have len: "length [''A'', ''B''] = 2" by simp
  have au: "autoc [[0], [0]] 1 1 = Inr (Degenerate 0)"
    by (simp add: autoc_def autoc_with_def)
  show ?thesis
    by (simp only: main_def len s cluster_short_input make_rho_short_input au unpack3_def
          sum.case prod.case autoc_result.case)
qed

lemma length_concat_rect:
  "\<forall>x \<in> set xss. length x = h \<Longrightarrow> length (concat xss) = length xss * h"
  by (induction xss) auto

lemma length_reshape_labels:
  assumes "0 < h" "length labels = n * h"
  shows "length (reshape_labels h labels) = n"
proof -
  have "(n * h + h - 1) div h = n"
  proof -
    have "n * h + h - 1 = n * h + (h - 1)" using assms by simp
    moreover have "(n * h + (h - 1)) div h = n + (h - 1) div h"
      using assms by (subst div_mult_self3) auto
    moreover have "(h - 1) div h = 0" using assms by simp
    ultimately show ?thesis by simp
  qed
  then show ?thesis using assms by (simp add: reshape_labels_def)
qed

lemma cluster_labelmatrix:
  assumes "cluster gmm pprobs nanc = Inr (lm, param)"
  shows "\<exists>labels means. gmm nanc (transformed_input pprobs) = Inr (labels, means)
           \<and> lm = reshape_labels (length (hd pprobs)) labels \<and> 0 < length (hd pprobs)"
  using assms
  unfolding cluster_def Let_def transformed_input_def whichdrop_of_def
  by (auto split: if_splits sum.splits prod.splits)

text \<open>
  C4.  The claim: an input with fewer than three locations still gives a complete model
  file.  The script never gives one: when the table is rectangular and the library
  returns one label per vector, the label matrix has as many rows as there are
  locations, \<open>autoc\<close> returns the float 0.0, and unpacking it at line 143 raises a
  TypeError (unless \<open>cluster\<close> or \<open>make_rho\<close> has raised before).
\<close>

theorem main_short_input_never_completes:
  assumes read: "read_panels (length refpops) ls = Inr s"
    and short: "length (panelprobs s) < 3"
    and rect: "\<forall>loc \<in> set (panelprobs s). length loc = length (hd (panelprobs s))"
    and fit: "\<forall>labels means. gmm nanc (transformed_input (panelprobs s)) = Inr (labels, means)
                \<longrightarrow> length labels = length (transformed_input (panelprobs s))"
  shows "\<exists>e. main gmm nanc nrefhaps refpops ls = Inl e"
proof (cases "cluster gmm (panelprobs s) nanc")
  case (Inl e)
  with read show ?thesis by (simp add: main_def)
next
  case (Inr r)
  obtain lm param where r: "r = (lm, param)" by (cases r)
  from cluster_labelmatrix [OF Inr [unfolded r]] obtain labels means where
    g: "gmm nanc (transformed_input (panelprobs s)) = Inr (labels, means)"
    and lm: "lm = reshape_labels (length (hd (panelprobs s))) labels"
    and h: "0 < length (hd (panelprobs s))" by blast
  from fit g have "length labels = length (concat (panelprobs s))"
    by (simp add: transformed_input_def)
  with rect have "length labels = length (panelprobs s) * length (hd (panelprobs s))"
    by (simp add: length_concat_rect)
  with h lm have "length lm = length (panelprobs s)"
    by (simp add: length_reshape_labels)
  with short have "autoc lm nanc 1 = Inr (Degenerate 0)"
    by (simp add: autoc_def autoc_with_def)
  with read Inr r show ?thesis
    by (simp add: main_def unpack3_def split: sum.splits)
qed

text \<open>On \<open>short_input\<close> (two locations, one ancestry) the script stops with the TypeError.\<close>

theorem main_short_input_never_completes_witness:
  "main one_component_fit 1 4 [''A'', ''B''] short_input = Inl TypeError
   \<and> (\<exists>s. read_panels (length [''A'', ''B'']) short_input = Inr s
          \<and> length (panelprobs s) < 3
          \<and> list_all (\<lambda>loc. length loc = length (hd (panelprobs s))) (panelprobs s))
   \<and> (\<exists>e. main one_component_fit 1 4 [''A'', ''B''] short_input = Inl e)"
proof -
  have len: "length [''A'', ''B''] = 2" by simp
  from read_short_input obtain s where s0: "read_panels 2 short_input = Inr s"
    and pp: "panelprobs s = [[[0.6, 0.4]], [[0.8, 0.2]]]" by blast
  from s0 have s: "read_panels (length [''A'', ''B'']) short_input = Inr s"
    by (simp only: len)
  have a: "length (panelprobs s) < 3" using pp by simp
  have b: "\<forall>loc \<in> set (panelprobs s). length loc = length (hd (panelprobs s))"
    using pp by simp
  have c: "\<forall>labels means.
             one_component_fit 1 (transformed_input (panelprobs s)) = Inr (labels, means)
             \<longrightarrow> length labels = length (transformed_input (panelprobs s))"
    by (auto simp: one_component_fit_def split: if_splits)
  from b have b': "list_all (\<lambda>loc. length loc = length (hd (panelprobs s))) (panelprobs s)"
    by (simp add: list_all_iff)
  from main_short_input_never_completes
         [where gmm = one_component_fit and nanc = 1 and nrefhaps = 4, OF s a b c]
  show ?thesis using main_short_input s a b' by blast
qed

end
